theory Spec2Isabelle
  imports Complex_Main "HOL-Library.Word" "HOL-Library.Sublist"
begin

section \<open>Audio capture: \<open>MicrophoneStream\<close> (smart\_speaker.py)\<close>

text \<open>
  A chunk of audio is a Python \<open>bytes\<close> object. The buffer \<open>self._buff\<close> is a
  \<open>queue.Queue\<close>: a FIFO whose items are chunks or the sentinel \<open>None\<close>
  (\<open>__exit__\<close> puts it). The queue is unbounded, so \<open>put\<close> never blocks.
\<close>

type_synonym bytes = "8 word list"

record mstream =
  buff :: "bytes option list"
  closed :: bool

text \<open>The control codes a PortAudio callback may return (\<open>pyaudio.paContinue\<close> = 0,
  \<open>paComplete\<close> = 1, \<open>paAbort\<close> = 2).\<close>

datatype pa_code = paContinue | paComplete | paAbort

text \<open>The status flags PortAudio passes to the callback are a bit mask
  (\<open>paInputUnderflow\<close> = 1, \<open>paInputOverflow\<close> = 2, ...); 0 means no error.\<close>

definition paInputUnderflow :: nat where "paInputUnderflow = 1"
definition paInputOverflow :: nat where "paInputOverflow = 2"

text \<open>\<open>_fill_buffer(self, in_data, frame_count, time_info, status_flags)\<close>:
  \<open>self._buff.put(in_data); return None, pyaudio.paContinue\<close>.\<close>

definition fill_buffer ::
  "mstream \<Rightarrow> bytes \<Rightarrow> nat \<Rightarrow> 'ti \<Rightarrow> nat \<Rightarrow> mstream \<times> (bytes option \<times> pa_code)" where
  "fill_buffer self in_data frame_count time_info status_flags =
     (self\<lparr>buff := buff self @ [Some in_data]\<rparr>, (None, paContinue))"

text \<open>The stream as \<open>__enter__\<close> leaves it: an empty queue, \<open>closed = False\<close>.\<close>

definition entered :: mstream where
  "entered = \<lparr>buff = [], closed = False\<rparr>"

subsection \<open>The generator, step by step\<close>









definition chunk10 :: bytes where
  "chunk10 = replicate 10 0"









section \<open>Python strings\<close>

text \<open>
  A Python \<open>str\<close> is a sequence of Unicode code points; \<open>len\<close> counts code points.
  \<open>py\<close> embeds an ASCII literal.
\<close>

type_synonym pystr = "nat list"

definition py :: "string \<Rightarrow> pystr" where
  "py s = map of_char s"

text \<open>The code points for which \<open>str.isspace\<close> holds; \<open>str.strip()\<close> removes exactly
  these from both ends.\<close>

definition py_isspace_char :: "nat \<Rightarrow> bool" where
  "py_isspace_char c =
     ((9 \<le> c \<and> c \<le> 13) \<or> (28 \<le> c \<and> c \<le> 32) \<or> c = 133 \<or> c = 160 \<or> c = 5760 \<or>
      (8192 \<le> c \<and> c \<le> 8202) \<or> c = 8232 \<or> c = 8233 \<or> c = 8239 \<or> c = 8287 \<or> c = 12288)"

definition strip :: "pystr \<Rightarrow> pystr" where
  "strip s = rev (dropWhile py_isspace_char (rev (dropWhile py_isspace_char s)))"

text \<open>\<open>s.isspace()\<close>: false on the empty string.\<close>

definition isspace :: "pystr \<Rightarrow> bool" where
  "isspace s = (s \<noteq> [] \<and> list_all py_isspace_char s)"

subsection \<open>\<open>re.search(r"\b(exit|quit)\b", transcript, re.I)\<close>\<close>

text \<open>
  \<open>\w\<close> on a \<open>str\<close> pattern is \<open>[A-Za-z0-9_]\<close> on ASCII, and the Unicode
  alphanumerics beyond; the Unicode table is the parameter \<open>uni\<close>.
\<close>

definition is_word :: "(nat \<Rightarrow> bool) \<Rightarrow> nat \<Rightarrow> bool" where
  "is_word uni c =
     (if c < 128
      then (48 \<le> c \<and> c \<le> 57) \<or> (65 \<le> c \<and> c \<le> 90) \<or> c = 95 \<or> (97 \<le> c \<and> c \<le> 122)
      else uni c)"

text \<open>A lower-case ASCII letter \<open>p\<close> of the pattern against a character \<open>c\<close> under
  \<open>re.I\<close>: the letter, its capital, and for \<open>i\<close> also U+0130 and U+0131, which the
  \<open>re\<close> module treats as cased forms of \<open>i\<close>.\<close>

definition ci_match :: "nat \<Rightarrow> nat \<Rightarrow> bool" where
  "ci_match p c = (c = p \<or> c + 32 = p \<or> (p = 105 \<and> (c = 304 \<or> c = 305)))"

fun match_literal :: "pystr \<Rightarrow> pystr \<Rightarrow> bool" where
  "match_literal [] s = True"
| "match_literal (p # ps) [] = False"
| "match_literal (p # ps) (c # cs) = (ci_match p c \<and> match_literal ps cs)"

text \<open>The literal matches at the head of \<open>s\<close> and a word boundary follows it. The last
  matched character is a word character, so \<open>\b\<close> there means: the end of the string, or
  a character that is not a word character.\<close>

definition word_here :: "(nat \<Rightarrow> bool) \<Rightarrow> pystr \<Rightarrow> pystr \<Rightarrow> bool" where
  "word_here uni lit s =
     (match_literal lit s \<and>
      (case drop (length lit) s of [] \<Rightarrow> True | d # _ \<Rightarrow> \<not> is_word uni d))"

text \<open>The search, from left to right; \<open>prev\<close> is the character before the position
  tried (\<open>None\<close> at the start). The first matched character is a word character, so
  \<open>\b\<close> in front of it means: the start of the string, or a non-word character before.\<close>

fun search_from :: "(nat \<Rightarrow> bool) \<Rightarrow> nat option \<Rightarrow> pystr \<Rightarrow> bool" where
  "search_from uni prev [] = False"
| "search_from uni prev (c # cs) =
     (((case prev of None \<Rightarrow> True | Some b \<Rightarrow> \<not> is_word uni b) \<and>
       (word_here uni (py ''exit'') (c # cs) \<or> word_here uni (py ''quit'') (c # cs)))
      \<or> search_from uni (Some c) cs)"

definition search_exit_quit :: "(nat \<Rightarrow> bool) \<Rightarrow> pystr \<Rightarrow> bool" where
  "search_exit_quit uni transcript = search_from uni None transcript"

section \<open>Segmentation: \<open>listen_print_loop\<close> (smart\_speaker.py)\<close>

definition MIN_TEXT_LENGTH :: nat where "MIN_TEXT_LENGTH = 3"
definition PAUSE_TIME :: real where "PAUSE_TIME = 3 / 2"

text \<open>
  A streaming response holds a list of results; a result holds its alternatives (their
  transcripts) and the flag \<open>is_final\<close>. The iterator \<open>responses\<close> delivers, in order,
  a response or an exception (the recogniser's stream failing). With each response comes
  the reading \<open>time.time()\<close> gives while it is processed: the loop reads the clock for a
  final result only. The readings are floats within a factor of two of each other, so
  their difference is exact, and \<open>PAUSE_TIME\<close> (1.5) is a binary fraction: the
  comparison is the one on the reals.
\<close>

record recognition_result =
  alternatives :: "pystr list"
  is_final :: bool

datatype stream_item = Response "recognition_result list" real | StreamError

text \<open>The loop's variables, and the calls \<open>text_message(transcript)\<close> it has made, each
  with the clock reading at which it was made.\<close>

record seg =
  last_text :: pystr
  last_time :: real
  handled :: "(pystr \<times> real) list"

text \<open>Lines 242 to 253: the gate on a result with its stripped transcript.
  \<open>text_message\<close> catches every \<open>Exception\<close>, so the call returns to the loop.\<close>

definition gate :: "seg \<Rightarrow> pystr \<Rightarrow> bool \<Rightarrow> real \<Rightarrow> seg" where
  "gate s transcript final current_time =
     (if final then
        (if current_time - last_time s \<ge> PAUSE_TIME then
           (if length transcript \<ge> MIN_TEXT_LENGTH \<and> \<not> isspace transcript
            then s\<lparr>last_text := transcript, last_time := current_time,
                   handled := handled s @ [(transcript, current_time)]\<rparr>
            else s)
         else s)
      else s)"

datatype loop_end = Exhausted | Break | Caught

fun listen_print_loop_from ::
  "(nat \<Rightarrow> bool) \<Rightarrow> seg \<Rightarrow> stream_item list \<Rightarrow> seg \<times> loop_end" where
  "listen_print_loop_from uni s [] = (s, Exhausted)"
| "listen_print_loop_from uni s (StreamError # rest) = (s, Caught)"
| "listen_print_loop_from uni s (Response results now # rest) =
     (case results of
        [] \<Rightarrow> listen_print_loop_from uni s rest
      | result # _ \<Rightarrow>
          (case alternatives result of
             [] \<Rightarrow> listen_print_loop_from uni s rest
           | alt # _ \<Rightarrow>
               (let transcript = strip alt;
                    s' = gate s transcript (is_final result) now
                in if search_exit_quit uni transcript then (s', Break)
                   else listen_print_loop_from uni s' rest)))"

text \<open>\<open>listen_print_loop(responses)\<close>, entered when the clock reads \<open>start\<close>.\<close>

definition listen_print_loop ::
  "(nat \<Rightarrow> bool) \<Rightarrow> real \<Rightarrow> stream_item list \<Rightarrow> seg \<times> loop_end" where
  "listen_print_loop uni start responses =
     listen_print_loop_from uni \<lparr>last_text = [], last_time = start, handled = []\<rparr> responses"

text \<open>A response with a final (or an interim) result of one alternative.\<close>

definition final_at :: "pystr \<Rightarrow> real \<Rightarrow> stream_item" where
  "final_at t now = Response [\<lparr>alternatives = [t], is_final = True\<rparr>] now"

definition interim_at :: "pystr \<Rightarrow> real \<Rightarrow> stream_item" where
  "interim_at t now = Response [\<lparr>alternatives = [t], is_final = False\<rparr>] now"

definition privet :: pystr where
  "privet = [1087, 1088, 1080, 1074, 1077, 1090]"

definition kak_dela :: pystr where
  "kak_dela = [1082, 1072, 1082, 32, 1076, 1077, 1083, 1072]"

definition poka_exit :: pystr where
  "poka_exit = [1087, 1086, 1082, 1072, 44, 32] @ py ''exit''"

text \<open>What the loop reads from a response: the stripped transcript of the first
  alternative of the first result and its \<open>is_final\<close>; nothing when there is no result
  or no alternative (the two \<open>continue\<close>s).\<close>

definition reading :: "recognition_result list \<Rightarrow> (pystr \<times> bool) option" where
  "reading results =
     (case results of
        [] \<Rightarrow> None
      | r # _ \<Rightarrow> (case alternatives r of [] \<Rightarrow> None | alt # _ \<Rightarrow> Some (strip alt, is_final r)))"

definition is_final_item :: "stream_item \<Rightarrow> bool" where
  "is_final_item it =
     (case it of
        Response (r # _) _ \<Rightarrow> alternatives r \<noteq> [] \<and> is_final r
      | _ \<Rightarrow> False)"

text \<open>The time of the last call of \<open>text_message\<close>, and the time the loop was entered
  when there has been none.\<close>

definition since :: "real \<Rightarrow> (pystr \<times> real) list \<Rightarrow> real" where
  "since start hs = (case hs of [] \<Rightarrow> start | _ \<Rightarrow> snd (last hs))"

text \<open>A table of word characters beyond ASCII that has the Russian alphabet.\<close>

definition cyrillic :: "nat \<Rightarrow> bool" where
  "cyrillic c = (1040 \<le> c \<and> c \<le> 1103)"

section \<open>The outside world\<close>

text \<open>
  What the two modules act on: the history file \<open>history1.csv\<close>, the role file
  \<open>role.txt\<close>, the record switch of the ALSA control \<open>Mic\<close>, and a trace of the
  requests sent, the files written and the switch settings made. Printing is left out.
\<close>

datatype exn = OSError | ParserError | OpenAIError | IndexError | TtsError | AlsaError | PygameError

record row =
  user_id :: int
  role :: pystr
  content :: pystr

record message =
  m_role :: pystr
  m_content :: pystr
  m_temperature :: "real option"

text \<open>The history file: absent, present but not readable by the process, present with a
  content that is no CSV table, or a table of rows. A table stands for the rows
  \<open>read_csv\<close> gives for the file; how \<open>to_csv\<close> encodes them is not modelled.\<close>

datatype store = Missing | Denied | Malformed | Table "row list"

datatype io = Request "message list" | WriteHistory "row list" | SetRec bool | Play bytes

record world =
  history_file :: store
  role_file :: "pystr option"
  mic_rec :: bool
  trace :: "io list"

text \<open>The poll \<open>pygame.mixer.music.get_busy()\<close>: still playing, done, or an error of
  the playback engine.\<close>

datatype poll = Busy | Idle | PollError

text \<open>What the external services and devices answer during one turn: the completion
  backend (the \<open>content\<close> of each choice of its response, or an exception), whether
  the history file can be written, the synthesis backend, each call to the mixer, the
  write of \<open>output.mp3\<close>, and the playback engine.\<close>

record env =
  chat_completion :: "message list \<Rightarrow> exn + pystr list"
  history_writable :: bool
  synthesize_speech :: "pystr \<Rightarrow> exn + bytes"
  mixer_opens :: bool
  setrec_off_ok :: bool
  output_writable :: bool
  music_load_ok :: bool
  music_play_ok :: bool
  get_busy :: "nat \<Rightarrow> poll"
  setrec_on_ok :: bool
  handler_mixer_opens :: bool
  handler_setrec_ok :: bool

section \<open>Conversation history: \<open>ask\<close> (gpt.py)\<close>

definition HISTORY_LENGTH :: nat where "HISTORY_LENGTH = 8"
definition TEMPERATURE :: real where "TEMPERATURE = 7 / 10"

text \<open>\<open>pd.read_csv(HISTORY_FILE)\<close>: a missing file raises \<open>FileNotFoundError\<close> and a
  file the process may not read \<open>PermissionError\<close>, both \<open>OSError\<close>s; a file that
  is no table raises a pandas parser error, which is not one.\<close>

definition read_csv :: "store \<Rightarrow> exn + row list" where
  "read_csv f =
     (case f of Missing \<Rightarrow> Inl OSError | Denied \<Rightarrow> Inl OSError | Malformed \<Rightarrow> Inl ParserError
      | Table rows \<Rightarrow> Inr rows)"

text \<open>\<open>DataFrame.tail(n)\<close>: the last \<open>n\<close> rows, all of them when there are fewer.\<close>

definition tail :: "nat \<Rightarrow> 'a list \<Rightarrow> 'a list" where
  "tail n xs = drop (length xs - n) xs"

text \<open>Lines 86 to 98: the messages of the request.\<close>

definition build_messages :: "pystr \<Rightarrow> row list \<Rightarrow> int \<Rightarrow> message list" where
  "build_messages role_text history uid =
     [\<lparr>m_role = py ''system'', m_content = role_text, m_temperature = Some TEMPERATURE\<rparr>,
      \<lparr>m_role = py ''user'', m_content = [], m_temperature = None\<rparr>]
     @ map (\<lambda>r. \<lparr>m_role = role r, m_content = content r, m_temperature = None\<rparr>)
         (tail HISTORY_LENGTH (filter (\<lambda>r. user_id r = uid) history))"

text \<open>\<open>ask(user_id, text)\<close>: the result, or the exception it raises, and the world after.\<close>

definition ask :: "int \<Rightarrow> pystr \<Rightarrow> env \<Rightarrow> world \<Rightarrow> (exn + pystr) \<times> world" where
  "ask uid text e w =
     (case (case read_csv (history_file w) of
              Inl x \<Rightarrow> (if x = OSError then Inr [] else Inl x)
            | Inr rows \<Rightarrow> Inr rows) of
        Inl x \<Rightarrow> (Inl x, w)
      | Inr loaded \<Rightarrow>
          (case role_file w of
             None \<Rightarrow> (Inl OSError, w)
           | Some role_text \<Rightarrow>
               (let history = loaded @ [\<lparr>user_id = uid, role = py ''user'', content = text\<rparr>];
                    messages = build_messages role_text history uid;
                    w1 = w\<lparr>trace := trace w @ [Request messages]\<rparr>
                in case chat_completion e messages of
                     Inl x \<Rightarrow> (Inl x, w1)
                   | Inr choices \<Rightarrow>
                       (case choices of
                          [] \<Rightarrow> (Inl IndexError, w1)
                        | response_text # _ \<Rightarrow>
                            (let history' = history @
                                   [\<lparr>user_id = uid, role = py ''assistant'',
                                     content = response_text\<rparr>]
                             in if history_writable e
                                then (Inr response_text,
                                      w1\<lparr>history_file := Table history',
                                         trace := trace w1 @ [WriteHistory history']\<rparr>)
                                else (Inl OSError, w1))))))"

text \<open>The words of the specification: the most recent \<open>n\<close> turns of a chronological
  list, in chronological order.\<close>

definition most_recent :: "nat \<Rightarrow> 'a list \<Rightarrow> 'a list" where
  "most_recent n xs = rev (take n (rev xs))"

text \<open>Names for the parts of a request and of the history, as the specification has
  them: the turns of one user, a turn as a message, the two messages every request starts
  with, the two rows \<open>ask\<close> appends, and the rows \<open>ask\<close> starts from (none when the
  file is missing or may not be read).\<close>

definition turns_of :: "int \<Rightarrow> row list \<Rightarrow> row list" where
  "turns_of uid history = filter (\<lambda>r. user_id r = uid) history"

definition as_message :: "row \<Rightarrow> message" where
  "as_message r = \<lparr>m_role = role r, m_content = content r, m_temperature = None\<rparr>"

definition fixed_prefix :: "pystr \<Rightarrow> message list" where
  "fixed_prefix role_text =
     [\<lparr>m_role = py ''system'', m_content = role_text, m_temperature = Some TEMPERATURE\<rparr>,
      \<lparr>m_role = py ''user'', m_content = [], m_temperature = None\<rparr>]"

definition user_turn :: "int \<Rightarrow> pystr \<Rightarrow> row" where
  "user_turn uid text = \<lparr>user_id = uid, role = py ''user'', content = text\<rparr>"

definition assistant_turn :: "int \<Rightarrow> pystr \<Rightarrow> row" where
  "assistant_turn uid text = \<lparr>user_id = uid, role = py ''assistant'', content = text\<rparr>"

definition loaded_rows :: "world \<Rightarrow> row list" where
  "loaded_rows w = (case history_file w of Table rows \<Rightarrow> rows | _ \<Rightarrow> [])"

definition is_write :: "io \<Rightarrow> bool" where
  "is_write x = (case x of WriteHistory _ \<Rightarrow> True | _ \<Rightarrow> False)"

text \<open>A first run (no history file yet), services that all answer, and variants with one
  failure each; a history of eleven rows, ten of them of user 111.\<close>

definition fresh :: world where
  "fresh = \<lparr>history_file = Missing, role_file = Some (py ''Be brief.''), mic_rec = True, trace = []\<rparr>"

definition calm :: env where
  "calm = \<lparr>chat_completion = (\<lambda>m. Inr [py ''ok'']), history_writable = True,
     synthesize_speech = (\<lambda>t. Inr [1, 2, 3]), mixer_opens = True, setrec_off_ok = True,
     output_writable = True, music_load_ok = True, music_play_ok = True,
     get_busy = (\<lambda>i. if i < 3 then Busy else Idle), setrec_on_ok = True,
     handler_mixer_opens = True, handler_setrec_ok = True\<rparr>"

definition sample_history :: "row list" where
  "sample_history =
     [user_turn 111 [48], assistant_turn 111 [49], user_turn 7 [120], user_turn 111 [50],
      assistant_turn 111 [51], user_turn 111 [52], assistant_turn 111 [53], user_turn 111 [54],
      assistant_turn 111 [55], user_turn 111 [56], assistant_turn 111 [57]]"

definition backend_down :: env where
  "backend_down = calm\<lparr>chat_completion := \<lambda>m. Inl OpenAIError\<rparr>"

definition two_turns :: world where
  "two_turns = fresh\<lparr>history_file :=
     Table [user_turn 111 (py ''ab''), assistant_turn 111 (py ''ok'')]\<rparr>"

definition corrupt :: world where
  "corrupt = fresh\<lparr>history_file := Malformed\<rparr>"

section \<open>Playback: \<open>text_message\<close> (smart\_speaker.py)\<close>

text \<open>\<open>mixer.setrec(b)\<close>, when it succeeds.\<close>

definition setrec :: "bool \<Rightarrow> world \<Rightarrow> world" where
  "setrec b w = w\<lparr>mic_rec := b, trace := trace w @ [SetRec b]\<rparr>"

text \<open>\<open>while pygame.mixer.music.get_busy(): time.sleep(0.1)\<close>, from poll \<open>i\<close> on. The
  loop ends when a poll says so, or raises; \<open>None\<close> is the loop that never ends.\<close>

partial_function (option) wait_playback :: "(nat \<Rightarrow> poll) \<Rightarrow> nat \<Rightarrow> (exn + unit) option" where
  "wait_playback polls i =
     (case polls i of
        Idle \<Rightarrow> Some (Inr ())
      | PollError \<Rightarrow> Some (Inl PygameError)
      | Busy \<Rightarrow> wait_playback polls (Suc i))"

declare wait_playback.simps [code]

text \<open>The body of the inner \<open>try\<close> (lines 191 to 201).\<close>

definition play_body :: "env \<Rightarrow> bytes \<Rightarrow> world \<Rightarrow> ((exn + unit) \<times> world) option" where
  "play_body e audio w =
     (if \<not> setrec_off_ok e then Some (Inl AlsaError, w)
      else let w1 = setrec False w in
        if \<not> output_writable e then Some (Inl OSError, w1)
        else if \<not> music_load_ok e then Some (Inl PygameError, w1)
        else if \<not> music_play_ok e then Some (Inl PygameError, w1)
        else let w2 = w1\<lparr>trace := trace w1 @ [Play audio]\<rparr> in
          (case wait_playback (get_busy e) 0 of
             None \<Rightarrow> None
           | Some r \<Rightarrow> Some (r, w2)))"

text \<open>The \<open>finally\<close> clause (line 204): it runs however the body ended; an exception of
  its own replaces the body's.\<close>

definition play_finally :: "env \<Rightarrow> (exn + unit) \<times> world \<Rightarrow> (exn + unit) \<times> world" where
  "play_finally e rw =
     (if setrec_on_ok e then (fst rw, setrec True (snd rw)) else (Inl AlsaError, snd rw))"

text \<open>The handler \<open>except Exception\<close> (lines 206 to 212): a new mixer, \<open>setrec(1)\<close>, and
  whatever these raise is swallowed.\<close>

definition handler :: "env \<Rightarrow> world \<Rightarrow> world" where
  "handler e w =
     (if handler_mixer_opens e then (if handler_setrec_ok e then setrec True w else w) else w)"

text \<open>\<open>text_message(message)\<close>: the world when it returns, \<open>None\<close> when it does not.\<close>

definition text_message :: "env \<Rightarrow> world \<Rightarrow> pystr \<Rightarrow> world option" where
  "text_message e w msg =
     (case ask 111 msg e w of
        (Inl x, w1) \<Rightarrow> Some (handler e w1)
      | (Inr response, w1) \<Rightarrow>
          (case synthesize_speech e response of
             Inl x \<Rightarrow> Some (handler e w1)
           | Inr audio \<Rightarrow>
               (if \<not> mixer_opens e then Some (handler e w1)
                else (case play_body e audio w1 of
                        None \<Rightarrow> None
                      | Some rw \<Rightarrow>
                          (case play_finally e rw of
                             (Inl x, w2) \<Rightarrow> Some (handler e w2)
                           | (Inr u, w2) \<Rightarrow> Some w2)))))"

definition tts_down :: env where
  "tts_down = calm\<lparr>synthesize_speech := \<lambda>t. Inl TtsError\<rparr>"

definition disk_full :: env where
  "disk_full = calm\<lparr>output_writable := False\<rparr>"

definition player_breaks :: env where
  "player_breaks = calm\<lparr>get_busy := \<lambda>i. if i < 2 then Busy else PollError\<rparr>"

text \<open>What a turn did to the microphone: the switch at the end, and the settings made.\<close>

definition mic_report :: "world option \<Rightarrow> (bool \<times> io list) option" where
  "mic_report r =
     map_option (\<lambda>w. (mic_rec w, filter (\<lambda>x. case x of SetRec b \<Rightarrow> True | _ \<Rightarrow> False) (trace w))) r"

section \<open>Properties of the capture buffer\<close>

subsection \<open>The callback\<close>

text \<open>
  C8, as the code has it: at every invocation, whatever the status flags say (an input
  overflow or underflow included), the callback appends the chunk to the queue, leaves
  the \<open>closed\<close> flag alone and returns \<open>(None, paContinue)\<close>. It raises nothing,
  does not look at the status flags, and goes on with the stream.
\<close>

theorem fill_buffer_continues:
  "fill_buffer self d n ti st = fill_buffer self d n ti 0 \<and>
   snd (fill_buffer self d n ti st) = (None, paContinue) \<and>
   buff (fst (fill_buffer self d n ti st)) = buff self @ [Some d] \<and>
   closed (fst (fill_buffer self d n ti st)) = closed self"
  by (simp add: fill_buffer_def)

text \<open>
  C8 as stated fails: on an input overflow the stream is not treated as ended. The
  callback returns \<open>paContinue\<close>, neither \<open>paAbort\<close> nor \<open>paComplete\<close>, the chunk
  is queued, no sentinel is, and \<open>closed\<close> stays false.
\<close>

theorem fill_buffer_error_status_not_ended:
  "snd (snd (fill_buffer entered chunk10 5 () paInputOverflow)) = paContinue \<and>
   snd (snd (fill_buffer entered chunk10 5 () paInputOverflow)) \<noteq> paAbort \<and>
   snd (snd (fill_buffer entered chunk10 5 () paInputOverflow)) \<noteq> paComplete \<and>
   buff (fst (fill_buffer entered chunk10 5 () paInputOverflow)) = [Some chunk10] \<and>
   closed (fst (fill_buffer entered chunk10 5 () paInputOverflow)) = False"
  by (simp add: fill_buffer_def entered_def)

subsection \<open>The generator\<close>






































section \<open>Properties of the segmentation loop\<close>

lemma loop_Response:
  "listen_print_loop_from uni s (Response rs now # rest) =
     (case reading rs of
        None \<Rightarrow> listen_print_loop_from uni s rest
      | Some (t, f) \<Rightarrow>
          if search_exit_quit uni t then (gate s t f now, Break)
          else listen_print_loop_from uni (gate s t f now) rest)"
  by (simp add: reading_def Let_def split: list.splits)

lemma loop_append:
  "listen_print_loop_from uni s (pre @ post) =
     (case listen_print_loop_from uni s pre of
        (s', Exhausted) \<Rightarrow> listen_print_loop_from uni s' post
      | (s', Break) \<Rightarrow> (s', Break)
      | (s', Caught) \<Rightarrow> (s', Caught))"
proof (induction pre arbitrary: s)
  case Nil
  then show ?case by simp
next
  case (Cons it pre)
  show ?case
  proof (cases it)
    case StreamError
    then show ?thesis by simp
  next
    case (Response rs now)
    then show ?thesis
      by (simp add: loop_Response Cons.IH del: listen_print_loop_from.simps(3)
            split: option.splits)
  qed
qed

lemma gate_since:
  "last_time s = since start (handled s) \<Longrightarrow>
   last_time (gate s t f now) = since start (handled (gate s t f now))"
  by (simp add: gate_def since_def split: list.splits)

lemma loop_since:
  "last_time s = since start (handled s) \<Longrightarrow>
   last_time (fst (listen_print_loop_from uni s items)) =
     since start (handled (fst (listen_print_loop_from uni s items)))"
proof (induction items arbitrary: s)
  case Nil
  then show ?case by simp
next
  case (Cons it items)
  show ?case
  proof (cases it)
    case StreamError
    then show ?thesis using Cons.prems by simp
  next
    case (Response rs now)
    show ?thesis
    proof (cases "reading rs")
      case None
      then show ?thesis using Response Cons.IH [OF Cons.prems]
        by (simp add: loop_Response del: listen_print_loop_from.simps(3))
    next
      case (Some tf)
      obtain t f where tf: "tf = (t, f)" by (cases tf)
      from gate_since [OF Cons.prems]
      have g: "last_time (gate s t f now) = since start (handled (gate s t f now))" .
      from Cons.IH [OF g] g show ?thesis using Response Some tf
        by (simp add: loop_Response del: listen_print_loop_from.simps(3))
    qed
  qed
qed

lemma gate_not_final: "gate s t False now = s"
  by (simp add: gate_def)

lemma reading_not_final: "\<not> is_final_item (Response rs now) \<Longrightarrow> reading rs = Some (t, f) \<Longrightarrow> \<not> f"
  by (auto simp: is_final_item_def reading_def split: list.splits)

lemma no_final_keeps:
  "list_all (\<lambda>it. \<not> is_final_item it) pre \<Longrightarrow> fst (listen_print_loop_from uni s pre) = s"
proof (induction pre arbitrary: s)
  case Nil
  then show ?case by simp
next
  case (Cons it pre)
  then have ih: "fst (listen_print_loop_from uni s pre) = s" by simp
  show ?case
  proof (cases it)
    case StreamError
    then show ?thesis by simp
  next
    case (Response rs now)
    with Cons.prems have nf: "\<not> is_final_item (Response rs now)" by simp
    show ?thesis
    proof (cases "reading rs")
      case None
      then show ?thesis using Response ih
        by (simp add: loop_Response del: listen_print_loop_from.simps(3))
    next
      case (Some tf)
      obtain t f where tf: "tf = (t, f)" by (cases tf)
      with Some reading_not_final [OF nf] have "\<not> f" by simp
      then show ?thesis using Response Some tf ih
        by (simp add: loop_Response gate_not_final del: listen_print_loop_from.simps(3))
    qed
  qed
qed

lemma gate_too_soon: "now - last_time s < PAUSE_TIME \<Longrightarrow> gate s t f now = s"
  by (simp add: gate_def)

lemma one_item:
  "fst (listen_print_loop_from uni s [Response rs now]) =
     (case reading rs of None \<Rightarrow> s | Some (t, f) \<Rightarrow> gate s t f now)"
  by (simp add: loop_Response del: listen_print_loop_from.simps(3) split: option.splits)


lemma reached_state:
  "snd (listen_print_loop uni start pre) = Exhausted \<Longrightarrow>
   listen_print_loop_from uni \<lparr>last_text = [], last_time = start, handled = []\<rparr> pre =
     (fst (listen_print_loop uni start pre), Exhausted)"
  unfolding listen_print_loop_def
  by (cases "listen_print_loop_from uni \<lparr>last_text = [], last_time = start, handled = []\<rparr> pre")
     simp

lemmas loop_eval =
  listen_print_loop_def final_at_def interim_at_def Let_def gate_def strip_def isspace_def
      privet_def kak_dela_def poka_exit_def py_isspace_char_def PAUSE_TIME_def MIN_TEXT_LENGTH_def
      search_exit_quit_def word_here_def py_def ci_match_def is_word_def

subsection \<open>Which finals become utterances\<close>

text \<open>
  C2, as the code has it. Take any stream and an item of it that the loop reaches (the
  loop has not ended before it) and that has a transcript. The loop calls
  \<open>text_message\<close> on it if and only if the result is final, the stripped transcript
  has at least \<open>MIN_TEXT_LENGTH\<close> characters and is not all whitespace, and at least
  \<open>PAUSE_TIME\<close> has passed since the last call of \<open>text_message\<close>, or, when there has
  been none, since the loop was entered. Finals at 0, 0.5 and 2.0 give one utterance
  (the third) in a loop entered at time 0, and two (the first and the third) in a loop
  entered 1.5 seconds before the first.
\<close>

theorem promoted_iff_gate_since_last_or_start:
  assumes "snd (listen_print_loop uni start pre) = Exhausted"
    and "alternatives r = alt # alts"
  shows "handled (fst (listen_print_loop uni start (pre @ [Response (r # rs) now]))) =
           handled (fst (listen_print_loop uni start pre)) @
           (if is_final r \<and> length (strip alt) \<ge> MIN_TEXT_LENGTH \<and> \<not> isspace (strip alt) \<and>
               now - since start (handled (fst (listen_print_loop uni start pre))) \<ge> PAUSE_TIME
            then [(strip alt, now)] else []) \<and>
         handled (fst (listen_print_loop uni 0
           [final_at privet 0, final_at privet (1 / 2), final_at kak_dela 2])) =
           [(kak_dela, 2)] \<and>
         handled (fst (listen_print_loop uni (- 3 / 2)
           [final_at privet 0, final_at privet (1 / 2), final_at kak_dela 2])) =
           [(privet, 0), (kak_dela, 2)]"
proof -
  let ?init = "\<lparr>last_text = [], last_time = start, handled = []\<rparr>"
  let ?s = "fst (listen_print_loop_from uni ?init pre)"
  have "last_time ?init = since start (handled ?init)" by (simp add: since_def)
  from loop_since [OF this] have lt: "last_time ?s = since start (handled ?s)" .
  note r = reached_state [OF assms(1)]
  have "fst (listen_print_loop_from uni ?init (pre @ [Response (r # rs) now])) =
          gate ?s (strip alt) (is_final r) now"
    unfolding loop_append r
    by (simp add: assms(2) Let_def listen_print_loop_def)
  then have general: "handled (fst (listen_print_loop uni start (pre @ [Response (r # rs) now]))) =
           handled (fst (listen_print_loop uni start pre)) @
           (if is_final r \<and> length (strip alt) \<ge> MIN_TEXT_LENGTH \<and> \<not> isspace (strip alt) \<and>
               now - since start (handled (fst (listen_print_loop uni start pre))) \<ge> PAUSE_TIME
            then [(strip alt, now)] else [])"
    unfolding listen_print_loop_def using lt by (simp add: gate_def)
  have at0: "handled (fst (listen_print_loop uni 0
           [final_at privet 0, final_at privet (1 / 2), final_at kak_dela 2])) =
           [(kak_dela, 2)]"
    by (simp add: loop_eval)
  have early: "handled (fst (listen_print_loop uni (- 3 / 2)
           [final_at privet 0, final_at privet (1 / 2), final_at kak_dela 2])) =
           [(privet, 0), (kak_dela, 2)]"
    by (simp add: loop_eval)
  from general at0 early show ?thesis by simp
qed

theorem promoted_iff_gate_witness:
  "snd (listen_print_loop cyrillic 0 [final_at privet 0, final_at privet (1 / 2)]) = Exhausted \<and>
   handled (fst (listen_print_loop cyrillic 0
     ([final_at privet 0, final_at privet (1 / 2)] @
      [Response [\<lparr>alternatives = [kak_dela], is_final = True\<rparr>] 2]))) = [(kak_dela, 2)]"
proof -
  have h1: "snd (listen_print_loop cyrillic 0 [final_at privet 0, final_at privet (1 / 2)])
              = Exhausted"
    by (simp add: loop_eval)
  have h2: "alternatives \<lparr>alternatives = [kak_dela], is_final = True\<rparr> = kak_dela # []"
    by simp
  have h3: "handled (fst (listen_print_loop cyrillic 0
              [final_at privet 0, final_at privet (1 / 2)])) = []"
    by (simp add: loop_eval)
  from promoted_iff_gate_since_last_or_start [OF h1 h2, of "[]" 2] h1 h3 show ?thesis
    by (simp add: since_def strip_def isspace_def kak_dela_def py_isspace_char_def
          PAUSE_TIME_def MIN_TEXT_LENGTH_def)
qed

text \<open>
  C2 as stated fails on its own scenario: in a loop entered at time 0 the final at
  \<open>t = 0\<close> is not promoted, although no utterance was promoted before it, and only
  the third final becomes an utterance; in a loop entered one second before, the
  utterances are the second and the third.
\<close>

theorem first_final_not_promoted_scenario:
  "handled (fst (listen_print_loop cyrillic 0
     [final_at privet 0, final_at privet (1 / 2), final_at kak_dela 2])) = [(kak_dela, 2)] \<and>
   handled (fst (listen_print_loop cyrillic (- 1)
     [final_at privet 0, final_at privet (1 / 2), final_at kak_dela 2])) =
     [(privet, 1 / 2), (kak_dela, 2)]"
  by (simp add: loop_eval)

subsection \<open>The termination phrase\<close>



subsection \<open>The first final\<close>

text \<open>
  C10. The loop sets \<open>last_time\<close> to the clock when it is entered. So when no final
  result has come yet and the response being processed comes less than \<open>PAUSE_TIME\<close>
  after the loop was entered, nothing is sent to \<open>text_message\<close>, whatever the
  response holds (a final of any length included), and \<open>last_time\<close> is still the
  time of entry.
\<close>

theorem first_final_before_pause_discarded:
  assumes "list_all (\<lambda>it. \<not> is_final_item it) pre" and "now - start < PAUSE_TIME"
  shows "fst (listen_print_loop uni start (pre @ [Response rs now])) =
           \<lparr>last_text = [], last_time = start, handled = []\<rparr>"
proof -
  let ?s = "\<lparr>last_text = [], last_time = start, handled = []\<rparr>"
  have keep: "fst (listen_print_loop_from uni ?s pre) = ?s"
    by (rule no_final_keeps [OF assms(1)])
  have "gate ?s t f now = ?s" for t f
    using gate_too_soon [of now ?s] assms(2) by simp
  then have one: "fst (listen_print_loop_from uni ?s [Response rs now]) = ?s"
    unfolding one_item by (simp split: option.splits)
  obtain s' e where r: "listen_print_loop_from uni ?s pre = (s', e)"
    by (cases "listen_print_loop_from uni ?s pre")
  with keep have "s' = ?s" by simp
  with r one show ?thesis
    unfolding listen_print_loop_def loop_append
    by (cases e) simp_all
qed

theorem first_final_before_pause_witness:
  "list_all (\<lambda>it. \<not> is_final_item it) [interim_at privet (1 / 5)] \<and>
   (1 :: real) - 0 < PAUSE_TIME \<and>
   is_final_item (final_at privet 1) \<and>
   MIN_TEXT_LENGTH \<le> length (strip privet) \<and> \<not> isspace (strip privet) \<and>
   fst (listen_print_loop cyrillic 0 ([interim_at privet (1 / 5)] @ [final_at privet 1])) =
     \<lparr>last_text = [], last_time = 0, handled = []\<rparr>"
proof -
  have h1: "list_all (\<lambda>it. \<not> is_final_item it) [interim_at privet (1 / 5)]"
    by (simp add: is_final_item_def interim_at_def)
  have h2: "(1 :: real) - 0 < PAUSE_TIME"
    by (simp add: PAUSE_TIME_def)
  have h3: "is_final_item (final_at privet 1) \<and>
            MIN_TEXT_LENGTH \<le> length (strip privet) \<and> \<not> isspace (strip privet)"
    by (simp add: is_final_item_def loop_eval)
  from first_final_before_pause_discarded
         [OF h1 h2, of cyrillic "[\<lparr>alternatives = [privet], is_final = True\<rparr>]"] h1 h2 h3
  show ?thesis by (simp add: final_at_def)
qed

section \<open>Properties of \<open>ask\<close>\<close>

lemma most_recent_tail: "most_recent n xs = tail n xs"
  by (simp add: most_recent_def tail_def rev_take)

lemma build_messages_spec:
  "build_messages role_text history uid =
     fixed_prefix role_text @ map as_message (most_recent HISTORY_LENGTH (turns_of uid history))"
  by (simp add: build_messages_def fixed_prefix_def most_recent_tail turns_of_def as_message_def
        fun_eq_iff)

lemma most_recent_all: "length xs \<le> n \<Longrightarrow> most_recent n xs = xs"
  by (simp add: most_recent_def)

lemma most_recent_drop: "n < length xs \<Longrightarrow> most_recent n xs = drop (length xs - n) xs \<and> length (most_recent n xs) = n"
  by (simp add: most_recent_tail tail_def)

lemma ask_unfold:
  "history_file w \<noteq> Malformed \<Longrightarrow> role_file w = Some role_text \<Longrightarrow>
   ask uid text e w =
     (let history = loaded_rows w @ [user_turn uid text];
          messages = build_messages role_text history uid;
          w1 = w\<lparr>trace := trace w @ [Request messages]\<rparr>
      in case chat_completion e messages of
           Inl x \<Rightarrow> (Inl x, w1)
         | Inr [] \<Rightarrow> (Inl IndexError, w1)
         | Inr (response_text # _) \<Rightarrow>
             if history_writable e
             then (Inr response_text,
                   w1\<lparr>history_file := Table (history @ [assistant_turn uid response_text]),
                      trace := trace w1 @ [WriteHistory (history @ [assistant_turn uid response_text])]\<rparr>)
             else (Inl OSError, w1))"
  by (cases "history_file w")
     (simp_all add: ask_def read_csv_def loaded_rows_def user_turn_def assistant_turn_def Let_def
        split: sum.splits list.splits)

lemma ask_early:
  "history_file w = Malformed \<Longrightarrow> ask uid text e w = (Inl ParserError, w)"
  "history_file w \<noteq> Malformed \<Longrightarrow> role_file w = None \<Longrightarrow> ask uid text e w = (Inl OSError, w)"
  by (cases "history_file w"; simp add: ask_def read_csv_def)+

lemma ask_cases:
  obtains (malformed) "history_file w = Malformed" "ask uid text e w = (Inl ParserError, w)"
  | (no_role) "history_file w \<noteq> Malformed" "role_file w = None" "ask uid text e w = (Inl OSError, w)"
  | (raised) role_text x where "history_file w \<noteq> Malformed" "role_file w = Some role_text"
      "chat_completion e (build_messages role_text (loaded_rows w @ [user_turn uid text]) uid) = Inl x"
      "ask uid text e w = (Inl x, w\<lparr>trace := trace w @
         [Request (build_messages role_text (loaded_rows w @ [user_turn uid text]) uid)]\<rparr>)"
  | (no_choice) role_text where "history_file w \<noteq> Malformed" "role_file w = Some role_text"
      "chat_completion e (build_messages role_text (loaded_rows w @ [user_turn uid text]) uid) = Inr []"
      "ask uid text e w = (Inl IndexError, w\<lparr>trace := trace w @
         [Request (build_messages role_text (loaded_rows w @ [user_turn uid text]) uid)]\<rparr>)"
  | (unwritable) role_text response_text more where
      "history_file w \<noteq> Malformed" "role_file w = Some role_text"
      "chat_completion e (build_messages role_text (loaded_rows w @ [user_turn uid text]) uid)
         = Inr (response_text # more)"
      "\<not> history_writable e"
      "ask uid text e w = (Inl OSError, w\<lparr>trace := trace w @
         [Request (build_messages role_text (loaded_rows w @ [user_turn uid text]) uid)]\<rparr>)"
  | (answered) role_text response_text more where
      "history_file w \<noteq> Malformed" "role_file w = Some role_text"
      "chat_completion e (build_messages role_text (loaded_rows w @ [user_turn uid text]) uid)
         = Inr (response_text # more)"
      "history_writable e"
      "ask uid text e w = (Inr response_text,
         w\<lparr>history_file :=
             Table (loaded_rows w @ [user_turn uid text, assistant_turn uid response_text]),
           trace := trace w @
             [Request (build_messages role_text (loaded_rows w @ [user_turn uid text]) uid),
              WriteHistory (loaded_rows w @ [user_turn uid text, assistant_turn uid response_text])]\<rparr>)"
proof (cases "history_file w = Malformed")
  case True
  with ask_early(1) [of w uid "text" e] malformed show ?thesis by blast
next
  case nm: False
  show ?thesis
  proof (cases "role_file w")
    case None
    with nm ask_early(2) [of w uid "text" e] no_role show ?thesis by blast
  next
    case (Some role_text)
    note u = ask_unfold [OF nm Some, of uid "text" e]
    show ?thesis
    proof (cases "chat_completion e
        (build_messages role_text (loaded_rows w @ [user_turn uid text]) uid)")
      case (Inl x)
      with u have "ask uid text e w = (Inl x, w\<lparr>trace := trace w @
         [Request (build_messages role_text (loaded_rows w @ [user_turn uid text]) uid)]\<rparr>)"
        by (simp add: Let_def)
      with nm Some Inl raised show ?thesis by blast
    next
      case (Inr choices)
      show ?thesis
      proof (cases choices)
        case Nil
        with u Inr have "ask uid text e w = (Inl IndexError, w\<lparr>trace := trace w @
         [Request (build_messages role_text (loaded_rows w @ [user_turn uid text]) uid)]\<rparr>)"
          by (simp add: Let_def)
        with nm Some Inr Nil no_choice show ?thesis by blast
      next
        case (Cons response_text more)
        show ?thesis
        proof (cases "history_writable e")
          case True
          with u Inr Cons have "ask uid text e w = (Inr response_text,
             w\<lparr>history_file :=
               Table (loaded_rows w @ [user_turn uid text, assistant_turn uid response_text]),
             trace := trace w @
               [Request (build_messages role_text (loaded_rows w @ [user_turn uid text]) uid),
                WriteHistory (loaded_rows w @ [user_turn uid text, assistant_turn uid response_text])]\<rparr>)"
            by (simp add: Let_def)
          with nm Some Inr Cons True answered show ?thesis by blast
        next
          case False
          with u Inr Cons have "ask uid text e w = (Inl OSError, w\<lparr>trace := trace w @
         [Request (build_messages role_text (loaded_rows w @ [user_turn uid text]) uid)]\<rparr>)"
            by (simp add: Let_def)
          with nm Some Inr Cons False unwritable show ?thesis by blast
        qed
      qed
    qed
  qed
qed

lemmas ask_eval =
  ask_def read_csv_def build_messages_def tail_def Let_def calm_def fresh_def user_turn_def
  assistant_turn_def loaded_rows_def fixed_prefix_def as_message_def turns_of_def
  HISTORY_LENGTH_def sample_history_def

subsection \<open>The request\<close>

text \<open>
  C4. The messages of the request are the system message with the role text (it also
  carries the temperature) and the empty user message, followed by the most recent
  \<open>HISTORY_LENGTH\<close> (8) turns of the user, oldest first, taken from the history as
  \<open>ask\<close> has it when it builds the request: the rows loaded with the new user turn
  appended. With at most 8 turns of the user all of them follow the prefix; with more,
  exactly the last 8. And this list is what \<open>ask\<close> sends, whenever it gets as far as
  the request.
\<close>

theorem request_prefix_then_recent_turns:
  "build_messages role_text history uid =
     fixed_prefix role_text @ map as_message (most_recent HISTORY_LENGTH (turns_of uid history)) \<and>
   (length (turns_of uid history) \<le> HISTORY_LENGTH \<longrightarrow>
      build_messages role_text history uid =
        fixed_prefix role_text @ map as_message (turns_of uid history)) \<and>
   (HISTORY_LENGTH < length (turns_of uid history) \<longrightarrow>
      build_messages role_text history uid =
        fixed_prefix role_text @ map as_message
          (drop (length (turns_of uid history) - HISTORY_LENGTH) (turns_of uid history)) \<and>
      length (build_messages role_text history uid) = 2 + HISTORY_LENGTH) \<and>
   (history_file w \<noteq> Malformed \<longrightarrow> role_file w = Some role_text \<longrightarrow>
      prefix (trace w @
                [Request (build_messages role_text (loaded_rows w @ [user_turn uid text]) uid)])
        (trace (snd (ask uid text e w))))"
proof -
  have a: "build_messages role_text history uid =
     fixed_prefix role_text @ map as_message (most_recent HISTORY_LENGTH (turns_of uid history))"
    by (rule build_messages_spec)
  have b: "length (turns_of uid history) \<le> HISTORY_LENGTH \<longrightarrow>
      build_messages role_text history uid =
        fixed_prefix role_text @ map as_message (turns_of uid history)"
    by (simp add: a most_recent_all)
  have c: "HISTORY_LENGTH < length (turns_of uid history) \<longrightarrow>
      build_messages role_text history uid =
        fixed_prefix role_text @ map as_message
          (drop (length (turns_of uid history) - HISTORY_LENGTH) (turns_of uid history)) \<and>
      length (build_messages role_text history uid) = 2 + HISTORY_LENGTH"
    using most_recent_drop [of HISTORY_LENGTH "turns_of uid history"]
    by (simp add: a fixed_prefix_def)
  have d: "history_file w \<noteq> Malformed \<longrightarrow> role_file w = Some role_text \<longrightarrow>
      prefix (trace w @
                [Request (build_messages role_text (loaded_rows w @ [user_turn uid text]) uid)])
        (trace (snd (ask uid text e w)))"
    by (cases rule: ask_cases [of w uid "text" e]) (auto simp: prefix_def)
  from a b c d show ?thesis by blast
qed

theorem request_prefix_then_recent_turns_witness:
  "length (turns_of 7 sample_history) \<le> HISTORY_LENGTH \<and>
   build_messages [66] sample_history 7 = fixed_prefix [66] @ [as_message (user_turn 7 [120])] \<and>
   HISTORY_LENGTH < length (turns_of 111 sample_history) \<and>
   build_messages [66] sample_history 111 =
     fixed_prefix [66] @ map as_message
       [user_turn 111 [50], assistant_turn 111 [51], user_turn 111 [52], assistant_turn 111 [53],
        user_turn 111 [54], assistant_turn 111 [55], user_turn 111 [56], assistant_turn 111 [57]] \<and>
   history_file fresh \<noteq> Malformed \<and> role_file fresh = Some (py ''Be brief.'') \<and>
   prefix [Request (fixed_prefix (py ''Be brief.'') @ [as_message (user_turn 111 (py ''ab''))])]
     (trace (snd (ask 111 (py ''ab'') calm fresh)))"
proof -
  have h1: "length (turns_of 7 sample_history) \<le> HISTORY_LENGTH"
    by (simp add: ask_eval)
  have t7: "turns_of 7 sample_history = [user_turn 7 [120]]"
    by (simp add: ask_eval)
  have h2: "HISTORY_LENGTH < length (turns_of 111 sample_history)"
    by (simp add: ask_eval)
  have t111: "drop (length (turns_of 111 sample_history) - HISTORY_LENGTH)
      (turns_of 111 sample_history) =
       [user_turn 111 [50], assistant_turn 111 [51], user_turn 111 [52], assistant_turn 111 [53],
        user_turn 111 [54], assistant_turn 111 [55], user_turn 111 [56], assistant_turn 111 [57]]"
    by (simp add: ask_eval)
  have h3: "history_file fresh \<noteq> Malformed" "role_file fresh = Some (py ''Be brief.'')"
    by (simp_all add: fresh_def)
  have m: "build_messages (py ''Be brief.'') (loaded_rows fresh @ [user_turn 111 (py ''ab'')]) 111
      = fixed_prefix (py ''Be brief.'') @ [as_message (user_turn 111 (py ''ab''))]"
    by (simp add: ask_eval)
  have tr: "trace fresh = []" by (simp add: fresh_def)
  from request_prefix_then_recent_turns [of "[66]" sample_history 7 fresh "[]" calm] h1
  have "build_messages [66] sample_history 7 =
          fixed_prefix [66] @ map as_message (turns_of 7 sample_history)"
    by blast
  then have a: "build_messages [66] sample_history 7 =
      fixed_prefix [66] @ [as_message (user_turn 7 [120])]"
    by (simp add: t7)
  from request_prefix_then_recent_turns [of "[66]" sample_history 111 fresh "[]" calm] h2
  have "build_messages [66] sample_history 111 =
          fixed_prefix [66] @ map as_message
            (drop (length (turns_of 111 sample_history) - HISTORY_LENGTH)
               (turns_of 111 sample_history))"
    by blast
  then have b: "build_messages [66] sample_history 111 =
     fixed_prefix [66] @ map as_message
       [user_turn 111 [50], assistant_turn 111 [51], user_turn 111 [52], assistant_turn 111 [53],
        user_turn 111 [54], assistant_turn 111 [55], user_turn 111 [56], assistant_turn 111 [57]]"
    by (simp only: t111)
  from request_prefix_then_recent_turns [of "py ''Be brief.''" "[]" 111 fresh "py ''ab''" calm] h3
  have "prefix (trace fresh @ [Request (build_messages (py ''Be brief.'')
           (loaded_rows fresh @ [user_turn 111 (py ''ab'')]) 111)])
     (trace (snd (ask 111 (py ''ab'') calm fresh)))"
    by blast
  then have c: "prefix [Request (fixed_prefix (py ''Be brief.'') @ [as_message (user_turn 111 (py ''ab''))])]
     (trace (snd (ask 111 (py ''ab'') calm fresh)))"
    by (simp only: m tr append_Nil)
  from a b c h1 h2 h3 show ?thesis by simp
qed

subsection \<open>When the history is written\<close>

text \<open>
  C6, as the code has it. The two appends work on the table in memory. When \<open>ask\<close>
  returns a response it has sent the request and then written the file once, with the
  rows loaded, the user turn and the assistant turn; and in every run, whatever fails,
  what \<open>ask\<close> does to the outside is a prefix of: the request, then the write. No
  write comes before the request.
\<close>

theorem history_written_once_after_response:
  "(\<forall>response_text w'. ask uid text e w = (Inr response_text, w') \<longrightarrow>
      (\<exists>role_text. role_file w = Some role_text \<and>
         trace w' = trace w @
           [Request (build_messages role_text (loaded_rows w @ [user_turn uid text]) uid),
            WriteHistory (loaded_rows w @ [user_turn uid text, assistant_turn uid response_text])] \<and>
         history_file w' =
           Table (loaded_rows w @ [user_turn uid text, assistant_turn uid response_text]))) \<and>
   (\<exists>m h. prefix (drop (length (trace w)) (trace (snd (ask uid text e w))))
             [Request m, WriteHistory h])"
  by (cases rule: ask_cases [of w uid "text" e]) auto

theorem history_written_once_after_response_witness:
  "ask 111 (py ''ab'') calm fresh =
     (Inr (py ''ok''),
      fresh\<lparr>history_file := Table [user_turn 111 (py ''ab''), assistant_turn 111 (py ''ok'')],
            trace := [Request (fixed_prefix (py ''Be brief.'') @
                         [as_message (user_turn 111 (py ''ab''))]),
                      WriteHistory [user_turn 111 (py ''ab''), assistant_turn 111 (py ''ok'')]]\<rparr>)"
proof -
  have h: "ask 111 (py ''ab'') calm fresh = (Inr (py ''ok''), snd (ask 111 (py ''ab'') calm fresh))"
    by (simp add: ask_eval)
  have m: "build_messages (py ''Be brief.'') (loaded_rows fresh @ [user_turn 111 (py ''ab'')]) 111
      = fixed_prefix (py ''Be brief.'') @ [as_message (user_turn 111 (py ''ab''))]"
    by (simp add: ask_eval)
  have r: "role_file fresh = Some (py ''Be brief.'')" "trace fresh = []" "loaded_rows fresh = []"
    "mic_rec fresh = True"
    by (simp_all add: fresh_def loaded_rows_def)
  have keep: "role_file (snd (ask 111 (py ''ab'') calm fresh)) = role_file fresh"
    "mic_rec (snd (ask 111 (py ''ab'') calm fresh)) = mic_rec fresh"
    by (simp_all add: ask_eval)
  from history_written_once_after_response [of 111 "py ''ab''" calm fresh] h
  have "\<exists>role_text. role_file fresh = Some role_text \<and>
         trace (snd (ask 111 (py ''ab'') calm fresh)) = trace fresh @
           [Request (build_messages role_text (loaded_rows fresh @ [user_turn 111 (py ''ab'')]) 111),
            WriteHistory (loaded_rows fresh @ [user_turn 111 (py ''ab''), assistant_turn 111 (py ''ok'')])] \<and>
         history_file (snd (ask 111 (py ''ab'') calm fresh)) =
           Table (loaded_rows fresh @ [user_turn 111 (py ''ab''), assistant_turn 111 (py ''ok'')])"
    by blast
  with r m have
    "trace (snd (ask 111 (py ''ab'') calm fresh)) =
       [Request (fixed_prefix (py ''Be brief.'') @ [as_message (user_turn 111 (py ''ab''))]),
        WriteHistory [user_turn 111 (py ''ab''), assistant_turn 111 (py ''ok'')]]"
    "history_file (snd (ask 111 (py ''ab'') calm fresh)) =
       Table [user_turn 111 (py ''ab''), assistant_turn 111 (py ''ok'')]"
    by auto
  with keep r have "snd (ask 111 (py ''ab'') calm fresh) =
      fresh\<lparr>history_file := Table [user_turn 111 (py ''ab''), assistant_turn 111 (py ''ok'')],
            trace := [Request (fixed_prefix (py ''Be brief.'') @
                         [as_message (user_turn 111 (py ''ab''))]),
                      WriteHistory [user_turn 111 (py ''ab''), assistant_turn 111 (py ''ok'')]]\<rparr>"
    by (simp add: fresh_def)
  with h show ?thesis by simp
qed

text \<open>
  C6 as stated fails: the user turn is not in the store when the request is issued. In
  a first run the request is the first thing \<open>ask\<close> does to the outside and the only
  write follows it; and when the backend then raises, the history file is still missing,
  the user turn in no store at all.
\<close>

theorem user_turn_not_persisted_before_request:
  "trace (snd (ask 111 (py ''ab'') calm fresh)) =
     [Request (fixed_prefix (py ''Be brief.'') @ [as_message (user_turn 111 (py ''ab''))]),
      WriteHistory [user_turn 111 (py ''ab''), assistant_turn 111 (py ''ok'')]] \<and>
   fst (ask 111 (py ''ab'') (calm\<lparr>chat_completion := \<lambda>m. Inl OpenAIError\<rparr>) fresh) = Inl OpenAIError \<and>
   trace (snd (ask 111 (py ''ab'') (calm\<lparr>chat_completion := \<lambda>m. Inl OpenAIError\<rparr>) fresh)) =
     [Request (fixed_prefix (py ''Be brief.'') @ [as_message (user_turn 111 (py ''ab''))])] \<and>
   history_file (snd (ask 111 (py ''ab'') (calm\<lparr>chat_completion := \<lambda>m. Inl OpenAIError\<rparr>) fresh)) =
     Missing"
  by (simp add: ask_eval)

subsection \<open>A store that cannot be read\<close>

text \<open>
  C7, as the code has it. When reading the history file raises \<open>OSError\<close> (the file
  is missing, or the process may not read it), \<open>ask\<close> goes on as with an empty table:
  it returns or raises what it would with an empty history file, sends the same request,
  and on success leaves the same world; with the role file there, the backend answering
  and the file writable, the turn succeeds and the file holds the two new turns. When the
  file is there but is no table, the parser's exception is not an \<open>OSError\<close>:
  \<open>ask\<close> raises it before anything is sent, and \<open>text_message\<close> goes to its handler
  with nothing asked, synthesised or played.
\<close>

theorem unreadable_store_is_empty_history:
  "(read_csv (history_file w) = Inl OSError \<longrightarrow>
      fst (ask uid text e w) = fst (ask uid text e (w\<lparr>history_file := Table []\<rparr>)) \<and>
      trace (snd (ask uid text e w)) =
        trace (snd (ask uid text e (w\<lparr>history_file := Table []\<rparr>))) \<and>
      (\<forall>response_text. fst (ask uid text e w) = Inr response_text \<longrightarrow>
         snd (ask uid text e w) = snd (ask uid text e (w\<lparr>history_file := Table []\<rparr>))) \<and>
      (\<forall>role_text response_text more.
         role_file w = Some role_text \<longrightarrow>
         chat_completion e (build_messages role_text [user_turn uid text] uid)
           = Inr (response_text # more) \<longrightarrow>
         history_writable e \<longrightarrow>
         ask uid text e w =
           (Inr response_text,
            w\<lparr>history_file := Table [user_turn uid text, assistant_turn uid response_text],
              trace := trace w @
                [Request (build_messages role_text [user_turn uid text] uid),
                 WriteHistory [user_turn uid text, assistant_turn uid response_text]]\<rparr>))) \<and>
   (history_file w = Malformed \<longrightarrow>
      ask uid text e w = (Inl ParserError, w) \<and>
      text_message e w text = Some (handler e w))"
proof -
  have missing: "read_csv (history_file w) = Inl OSError \<longrightarrow>
      fst (ask uid text e w) = fst (ask uid text e (w\<lparr>history_file := Table []\<rparr>)) \<and>
      trace (snd (ask uid text e w)) =
        trace (snd (ask uid text e (w\<lparr>history_file := Table []\<rparr>))) \<and>
      (\<forall>response_text. fst (ask uid text e w) = Inr response_text \<longrightarrow>
         snd (ask uid text e w) = snd (ask uid text e (w\<lparr>history_file := Table []\<rparr>))) \<and>
      (\<forall>role_text response_text more.
         role_file w = Some role_text \<longrightarrow>
         chat_completion e (build_messages role_text [user_turn uid text] uid)
           = Inr (response_text # more) \<longrightarrow>
         history_writable e \<longrightarrow>
         ask uid text e w =
           (Inr response_text,
            w\<lparr>history_file := Table [user_turn uid text, assistant_turn uid response_text],
              trace := trace w @
                [Request (build_messages role_text [user_turn uid text] uid),
                 WriteHistory [user_turn uid text, assistant_turn uid response_text]]\<rparr>))"
    by (cases "history_file w")
       (auto simp: ask_def read_csv_def Let_def user_turn_def assistant_turn_def
          split: option.splits sum.splits list.splits)
  have parse: "history_file w = Malformed \<longrightarrow>
      ask uid text e w = (Inl ParserError, w) \<and>
      text_message e w text = Some (handler e w)"
    by (simp add: ask_early(1) text_message_def)
  from missing parse show ?thesis by blast
qed

theorem unreadable_store_is_empty_history_witness:
  "read_csv (history_file fresh) = Inl OSError \<and>
   role_file fresh = Some (py ''Be brief.'') \<and>
   chat_completion calm (build_messages (py ''Be brief.'') [user_turn 111 (py ''ab'')] 111)
     = Inr (py ''ok'' # []) \<and>
   history_writable calm \<and>
   ask 111 (py ''ab'') calm fresh =
     (Inr (py ''ok''),
      fresh\<lparr>history_file := Table [user_turn 111 (py ''ab''), assistant_turn 111 (py ''ok'')],
            trace := trace fresh @
              [Request (build_messages (py ''Be brief.'') [user_turn 111 (py ''ab'')] 111),
               WriteHistory [user_turn 111 (py ''ab''), assistant_turn 111 (py ''ok'')]]\<rparr>) \<and>
   history_file corrupt = Malformed \<and>
   ask 111 (py ''ab'') calm corrupt = (Inl ParserError, corrupt) \<and>
   text_message calm corrupt (py ''ab'') = Some (handler calm corrupt)"
proof -
  have h1: "read_csv (history_file fresh) = Inl OSError"
    by (simp add: fresh_def read_csv_def)
  have h2: "role_file fresh = Some (py ''Be brief.'')"
    by (simp add: fresh_def)
  have h3: "chat_completion calm (build_messages (py ''Be brief.'') [user_turn 111 (py ''ab'')] 111)
     = Inr (py ''ok'' # [])"
    by (simp add: calm_def)
  have h4: "history_writable calm"
    by (simp add: calm_def)
  from unreadable_store_is_empty_history [of fresh 111 "py ''ab''" calm] h1 h2 h3 h4
  have a: "ask 111 (py ''ab'') calm fresh =
     (Inr (py ''ok''),
      fresh\<lparr>history_file := Table [user_turn 111 (py ''ab''), assistant_turn 111 (py ''ok'')],
            trace := trace fresh @
              [Request (build_messages (py ''Be brief.'') [user_turn 111 (py ''ab'')] 111),
               WriteHistory [user_turn 111 (py ''ab''), assistant_turn 111 (py ''ok'')]]\<rparr>)"
    by blast
  have h5: "history_file corrupt = Malformed"
    by (simp add: corrupt_def)
  from unreadable_store_is_empty_history [of corrupt 111 "py ''ab''" calm] h5
  have b: "ask 111 (py ''ab'') calm corrupt = (Inl ParserError, corrupt)"
    "text_message calm corrupt (py ''ab'') = Some (handler calm corrupt)"
    by blast+
  from h1 h2 h3 h4 a h5 b show ?thesis by blast
qed

text \<open>
  C7 as stated fails: a history file that is there but cannot be read as a table is
  fatal to the turn. \<open>ask\<close> raises the parser's error, and the turn ends in the handler
  of \<open>text_message\<close>: no request is sent and nothing is played, where the same turn on
  an empty table gets its answer.
\<close>

theorem malformed_store_is_fatal:
  "read_csv (history_file corrupt) = Inl ParserError \<and>
   ask 111 (py ''ab'') calm corrupt = (Inl ParserError, corrupt) \<and>
   map_option trace (text_message calm corrupt (py ''ab'')) = Some [SetRec True] \<and>
   fst (ask 111 (py ''ab'') calm (corrupt\<lparr>history_file := Table []\<rparr>)) = Inr (py ''ok'')"
  by (simp add: ask_eval text_message_def handler_def setrec_def corrupt_def)

subsection \<open>A backend that raises\<close>

text \<open>
  C9. When the call to the completion backend raises, \<open>ask\<close> raises the same
  exception and the world is as before but for the request sent: the history file is not
  touched. In every run the file is written once if \<open>ask\<close> returns a response and not
  at all if it raises, and when it raises the file is as it was.
\<close>

theorem backend_failure_leaves_store:
  "(history_file w \<noteq> Malformed \<longrightarrow> role_file w = Some role_text \<longrightarrow>
      chat_completion e (build_messages role_text (loaded_rows w @ [user_turn uid text]) uid) = Inl x \<longrightarrow>
      ask uid text e w =
        (Inl x, w\<lparr>trace := trace w @
           [Request (build_messages role_text (loaded_rows w @ [user_turn uid text]) uid)]\<rparr>)) \<and>
   length (filter is_write (trace (snd (ask uid text e w)))) =
     length (filter is_write (trace w)) + (if isl (fst (ask uid text e w)) then 0 else 1) \<and>
   (isl (fst (ask uid text e w)) \<longrightarrow> history_file (snd (ask uid text e w)) = history_file w)"
  by (cases rule: ask_cases [of w uid "text" e]) (auto simp: is_write_def)

theorem backend_failure_leaves_store_witness:
  "history_file two_turns \<noteq> Malformed \<and>
   role_file two_turns = Some (py ''Be brief.'') \<and>
   chat_completion backend_down
     (build_messages (py ''Be brief.'') (loaded_rows two_turns @ [user_turn 111 (py ''cd'')]) 111)
     = Inl OpenAIError \<and>
   fst (ask 111 (py ''cd'') backend_down two_turns) = Inl OpenAIError \<and>
   history_file (snd (ask 111 (py ''cd'') backend_down two_turns)) =
     Table [user_turn 111 (py ''ab''), assistant_turn 111 (py ''ok'')] \<and>
   filter is_write (trace (snd (ask 111 (py ''cd'') backend_down two_turns))) = []"
proof -
  have h1: "history_file two_turns \<noteq> Malformed"
    by (simp add: two_turns_def)
  have h2: "role_file two_turns = Some (py ''Be brief.'')"
    by (simp add: two_turns_def fresh_def)
  have h3: "chat_completion backend_down
     (build_messages (py ''Be brief.'') (loaded_rows two_turns @ [user_turn 111 (py ''cd'')]) 111)
     = Inl OpenAIError"
    by (simp add: backend_down_def)
  have t: "trace two_turns = []"
          "history_file two_turns = Table [user_turn 111 (py ''ab''), assistant_turn 111 (py ''ok'')]"
    by (simp_all add: two_turns_def fresh_def)
  from backend_failure_leaves_store [of two_turns "py ''Be brief.''" backend_down 111 "py ''cd''" OpenAIError] h1 h2 h3
  have a: "ask 111 (py ''cd'') backend_down two_turns =
        (Inl OpenAIError, two_turns\<lparr>trace := trace two_turns @
           [Request (build_messages (py ''Be brief.'')
              (loaded_rows two_turns @ [user_turn 111 (py ''cd'')]) 111)]\<rparr>)"
    by blast
  have b: "fst (ask 111 (py ''cd'') backend_down two_turns) = Inl OpenAIError"
    by (simp add: a)
  have c: "history_file (snd (ask 111 (py ''cd'') backend_down two_turns)) =
     Table [user_turn 111 (py ''ab''), assistant_turn 111 (py ''ok'')]"
    by (simp add: a t)
  have d: "filter is_write (trace (snd (ask 111 (py ''cd'') backend_down two_turns))) = []"
    by (simp add: a t is_write_def)
  from h1 h2 h3 b c d show ?thesis by blast
qed

section \<open>Properties of \<open>text_message\<close>\<close>

lemma wait_playback_returns:
  "polls k \<noteq> Busy \<Longrightarrow> i \<le> k \<Longrightarrow> wait_playback polls i \<noteq> None"
proof (induction "k - i" arbitrary: i)
  case 0
  then have "i = k" by simp
  with "0.prems"(1) show ?case
    by (cases "polls k") (simp_all add: wait_playback.simps)
next
  case (Suc n)
  show ?case
  proof (cases "polls i")
    case Busy
    from Suc.hyps(2) have "n = k - Suc i" "Suc i \<le> k" by simp_all
    from Suc.hyps(1) [OF this(1) Suc.prems(1) this(2)] Busy show ?thesis
      by (subst wait_playback.simps) simp
  qed (simp_all add: wait_playback.simps)
qed

lemma handler_unmutes:
  "handler_mixer_opens e \<Longrightarrow> handler_setrec_ok e \<Longrightarrow> handler e w = setrec True w"
  by (simp add: handler_def)

lemma play_finally_unmutes:
  "setrec_on_ok e \<Longrightarrow> play_finally e rw = (fst rw, setrec True (snd rw))"
  by (simp add: play_finally_def)

lemma text_message_unmuted:
  assumes "setrec_on_ok e" "handler_mixer_opens e" "handler_setrec_ok e"
    and "text_message e w msg = Some w'"
  shows "\<exists>v. w' = setrec True v"
proof -
  note h = handler_unmutes [OF assms(2,3)]
  obtain r w1 where a: "ask 111 msg e w = (r, w1)" by (cases "ask 111 msg e w")
  show ?thesis
  proof (cases r)
    case (Inl x)
    with a assms(4) show ?thesis by (auto simp: text_message_def h)
  next
    case (Inr response)
    show ?thesis
    proof (cases "synthesize_speech e response")
      case (Inl x)
      with a Inr assms(4) show ?thesis by (auto simp: text_message_def h)
    next
      case synth: (Inr audio)
      show ?thesis
      proof (cases "mixer_opens e")
        case False
        with a Inr synth assms(4) show ?thesis by (auto simp: text_message_def h)
      next
        case True
        show ?thesis
        proof (cases "play_body e audio w1")
          case None
          with a Inr synth True assms(4) show ?thesis by (simp add: text_message_def)
        next
          case (Some rw)
          obtain r2 w2 where rw: "rw = (r2, w2)" by (cases rw)
          show ?thesis
          proof (cases r2)
            case (Inl x)
            with a Inr synth True Some rw assms(4) show ?thesis
              by (auto simp: text_message_def h play_finally_unmutes [OF assms(1)])
          next
            case r2: (Inr u)
            with a Inr synth True Some rw assms(4) show ?thesis
              by (auto simp: text_message_def h play_finally_unmutes [OF assms(1)])
          qed
        qed
      qed
    qed
  qed
qed

lemma play_body_returns:
  "get_busy e k \<noteq> Busy \<Longrightarrow> play_body e audio w \<noteq> None"
  using wait_playback_returns [of "get_busy e" k 0]
  by (auto simp: play_body_def Let_def split: option.splits)

lemma text_message_returns:
  assumes "get_busy e k \<noteq> Busy"
  shows "text_message e w msg \<noteq> None"
proof -
  have p: "play_body e audio v \<noteq> None" for audio v
    by (rule play_body_returns [OF assms])
  show ?thesis
    by (simp add: text_message_def p split: prod.splits sum.splits option.splits)
qed

lemmas turn_eval =
  text_message_def play_body_def play_finally_def handler_def setrec_def mic_report_def
  tts_down_def disk_full_def player_breaks_def wait_playback.simps

text \<open>
  C3. Suppose the mixer does what it is asked when unmuting (the \<open>setrec(1)\<close> of the
  \<open>finally\<close> clause, and the new mixer and \<open>setrec(1)\<close> of the handler). Then
  whatever the completion backend, the synthesis, the write of the audio file and the
  playback engine do, when \<open>text_message\<close> returns the record switch is on, and the
  last thing done was a \<open>setrec(1)\<close>. It does return as soon as some poll of the
  playback engine is not "busy". A second \<open>setrec(1)\<close> leaves the switch on.
\<close>

theorem text_message_leaves_mic_enabled:
  assumes "setrec_on_ok e" and "handler_mixer_opens e" and "handler_setrec_ok e"
  shows "(\<forall>w'. text_message e w msg = Some w' \<longrightarrow> mic_rec w' \<and> (\<exists>v. w' = setrec True v)) \<and>
         (\<forall>k. get_busy e k \<noteq> Busy \<longrightarrow> text_message e w msg \<noteq> None) \<and>
         mic_rec (setrec True (setrec True w)) = mic_rec (setrec True w)"
proof -
  have "mic_rec w' \<and> (\<exists>v. w' = setrec True v)" if "text_message e w msg = Some w'" for w'
  proof -
    from text_message_unmuted [OF assms that] obtain v where "w' = setrec True v" by blast
    then show ?thesis by (auto simp: setrec_def)
  qed
  moreover have "text_message e w msg \<noteq> None" if "get_busy e k \<noteq> Busy" for k
    by (rule text_message_returns [OF that])
  ultimately show ?thesis by (simp add: setrec_def)
qed

theorem text_message_leaves_mic_enabled_witness:
  "setrec_on_ok calm \<and> handler_mixer_opens calm \<and> handler_setrec_ok calm \<and>
   get_busy calm 3 \<noteq> Busy \<and>
   (\<exists>w'. text_message calm (fresh\<lparr>mic_rec := False\<rparr>) (py ''ab'') = Some w' \<and> mic_rec w') \<and>
   mic_report (text_message calm fresh (py ''ab'')) = Some (True, [SetRec False, SetRec True]) \<and>
   mic_report (text_message tts_down fresh (py ''ab'')) = Some (True, [SetRec True]) \<and>
   mic_report (text_message disk_full fresh (py ''ab'')) =
     Some (True, [SetRec False, SetRec True, SetRec True]) \<and>
   mic_report (text_message player_breaks fresh (py ''ab'')) =
     Some (True, [SetRec False, SetRec True, SetRec True])"
proof -
  have h: "setrec_on_ok calm" "handler_mixer_opens calm" "handler_setrec_ok calm"
    by (simp_all add: calm_def)
  have b: "get_busy calm 3 \<noteq> Busy"
    by (simp add: calm_def)
  note t = text_message_leaves_mic_enabled [OF h, of "fresh\<lparr>mic_rec := False\<rparr>" "py ''ab''"]
  from t b obtain w' where w': "text_message calm (fresh\<lparr>mic_rec := False\<rparr>) (py ''ab'') = Some w'"
    by blast
  with t have m: "mic_rec w'" by blast
  have r1: "mic_report (text_message calm fresh (py ''ab'')) = Some (True, [SetRec False, SetRec True])"
    by (simp add: turn_eval ask_eval)
  have r2: "mic_report (text_message tts_down fresh (py ''ab'')) = Some (True, [SetRec True])"
    by (simp add: turn_eval ask_eval)
  have r3: "mic_report (text_message disk_full fresh (py ''ab'')) =
     Some (True, [SetRec False, SetRec True, SetRec True])"
    by (simp add: turn_eval ask_eval)
  have r4: "mic_report (text_message player_breaks fresh (py ''ab'')) =
     Some (True, [SetRec False, SetRec True, SetRec True])"
    by (simp add: turn_eval ask_eval)
  from h b w' m r1 r2 r3 r4 show ?thesis by blast
qed

end
